theory Spec2Isabelle
  imports Complex_Main
begin

section \<open>Exchange-rate collection, processing and read-through lookup\<close>

text \<open>
  A shallow embedding of three classes of the repository:
  \<^item> \<open>DataCollector\<close> (services/data-ingestor/app/services/data_collector.py),
  \<^item> \<open>DataProcessor\<close> (services/data-ingestor/app/services/data_processor.py),
  \<^item> \<open>CurrencyProvider\<close> (services/currency-service/app/services/currency_provider.py).

  Rates are exact rationals (Python \<open>Decimal\<close> and \<open>float\<close> values are read as the numbers
  they denote, binary rounding is not modelled), timestamps are seconds as integers, and
  every \<open>raise\<close> of the source is an \<open>Inl\<close> of a result of type \<open>exn + 'a\<close>.
\<close>

subsection \<open>Data\<close>

type_synonym timestamp = int

datatype exn =
    ValidationError | ValueError | TypeError | ExternalAPIError
  | DatabaseError | CacheError | MessagingError | DataProcessingError

text \<open>\<open>RawExchangeRateData\<close> as the adapters build it (the opaque metadata map is left out).\<close>

record raw_exchange_rate_data =
  raw_currency_code :: string
  raw_rate :: rat
  raw_source :: string
  raw_timestamp :: "timestamp option"

text \<open>\<open>ExchangeRate\<close>, the canonical record built by the processor.\<close>

record exchange_rate =
  currency_code :: string
  currency_name :: string
  deal_base_rate :: rat
  tts :: rat
  ttb :: rat
  source :: string
  recorded_at :: timestamp

text \<open>
  \<open>CollectionResult\<close>. The error message is represented by the exception whose \<open>str\<close> it
  is; the two timing fields are left out.
\<close>

record collection_result =
  cr_source :: string
  cr_success :: bool
  cr_error_message :: "exn option"
  cr_currency_count :: nat
  cr_raw_data :: "raw_exchange_rate_data list option"

subsection \<open>Logging\<close>

text \<open>
  The data collector takes its logger from \<open>get_logger_safe\<close>: the structured logger of
  shared/logging.py, whose methods accept keyword fields, or, when that import fails, a plain
  \<open>logging.getLogger\<close> logger. The currency provider always uses a plain logger. A plain
  logger rejects keyword fields: \<open>logger.warning(msg, error=e)\<close> raises \<open>TypeError\<close> at its
  default threshold (WARNING); \<open>info\<close> and \<open>debug\<close> calls are below that threshold and
  return at once. \<open>log_kw\<close> is a \<open>warning\<close> or \<open>error\<close> call that passes keyword fields.
\<close>

datatype logger = Structured | Plain

definition log_kw :: "logger \<Rightarrow> exn + unit" where
  "log_kw lg = (case lg of Structured \<Rightarrow> Inr () | Plain \<Rightarrow> Inl TypeError)"

subsection \<open>DataCollector\<close>

text \<open>
  Modelled from the spec: \<open>ValidationUtils.validate_currency_code\<close> (shared/utils.py) is not
  in the source tree. Section 4.3 rejects a record whose currency code is not in the
  known-currency set; the set is a parameter.
\<close>

definition validate_currency_code :: "string set \<Rightarrow> string \<Rightarrow> exn + string" where
  "validate_currency_code known code = (if code \<in> known then Inr code else Inl ValidationError)"

text \<open>
  One iteration of the loop of \<open>_validate_collected_data\<close>: the body of the \<open>try\<close>, then the
  \<open>except Exception\<close> handler, whose own logging call may raise. \<open>Inl\<close> is an exception that
  leaves the method, \<open>Inr\<close> the list \<open>validated_data\<close> after the iteration.
\<close>

definition validate_item ::
  "logger \<Rightarrow> string set \<Rightarrow> timestamp \<Rightarrow> raw_exchange_rate_data list \<Rightarrow>
   raw_exchange_rate_data \<Rightarrow> exn + raw_exchange_rate_data list" where
  "validate_item lg known now validated_data item =
     (case
        (case validate_currency_code known (raw_currency_code item) of
           Inl e \<Rightarrow> Inl e
         | Inr _ \<Rightarrow>
             if raw_rate item \<le> 0 \<or> raw_rate item > 10000
             then (case log_kw lg of Inl e \<Rightarrow> Inl e | Inr _ \<Rightarrow> Inr validated_data)
             else Inr (validated_data @
                    [item\<lparr>raw_timestamp :=
                       Some (case raw_timestamp item of None \<Rightarrow> now | Some t \<Rightarrow> t)\<rparr>]))
      of
        Inl e \<Rightarrow> (case log_kw lg of Inl e' \<Rightarrow> Inl e' | Inr _ \<Rightarrow> Inr validated_data)
      | Inr v \<Rightarrow> Inr v)"

fun validate_loop ::
  "logger \<Rightarrow> string set \<Rightarrow> timestamp \<Rightarrow> raw_exchange_rate_data list \<Rightarrow>
   raw_exchange_rate_data list \<Rightarrow> exn + raw_exchange_rate_data list" where
  "validate_loop lg known now validated_data [] = Inr validated_data"
| "validate_loop lg known now validated_data (item # rest) =
     (case validate_item lg known now validated_data item of
        Inl e \<Rightarrow> Inl e
      | Inr v \<Rightarrow> validate_loop lg known now v rest)"

definition validate_collected_data ::
  "logger \<Rightarrow> string set \<Rightarrow> timestamp \<Rightarrow> raw_exchange_rate_data list \<Rightarrow>
   exn + raw_exchange_rate_data list" where
  "validate_collected_data lg known now raw_data = validate_loop lg known now [] raw_data"

text \<open>The entries of \<open>api_sources\<close>; a Python dict keeps insertion order, so it is a list of pairs.\<close>

record source_config =
  sc_name :: string
  sc_api_key :: string
  sc_currencies :: "string list"
  sc_timeout :: nat
  sc_priority :: nat
  sc_active :: bool

definition initialize_api_sources :: "string \<Rightarrow> string \<Rightarrow> (string \<times> source_config) list" where
  "initialize_api_sources bok_api_key backup_api_key =
     [(''bok'',
       \<lparr>sc_name = ''Bank of Korea'', sc_api_key = bok_api_key,
        sc_currencies = [''USD'', ''JPY'', ''EUR'', ''GBP'', ''CNY''],
        sc_timeout = 15, sc_priority = 1, sc_active = (bok_api_key \<noteq> [])\<rparr>),
      (''exchangerate_api'',
       \<lparr>sc_name = ''ExchangeRate-API'', sc_api_key = backup_api_key,
        sc_currencies = [''USD'', ''JPY'', ''EUR'', ''GBP'', ''CNY'', ''AUD'', ''CAD'', ''CHF''],
        sc_timeout = 10, sc_priority = 2, sc_active = True\<rparr>),
      (''fixer'',
       \<lparr>sc_name = ''Fixer.io'', sc_api_key = [],
        sc_currencies = [''USD'', ''JPY'', ''EUR'', ''GBP''],
        sc_timeout = 10, sc_priority = 3, sc_active = True\<rparr>)]"

text \<open>
  \<open>_collect_from_source\<close>. The three provider methods do network I/O; what they return or
  raise is the parameter \<open>fetch\<close>. \<open>Inl\<close> is an exception that leaves the coroutine, which
  happens when the logging call of the handler raises.
\<close>

definition collect_from_source ::
  "logger \<Rightarrow> string set \<Rightarrow> (string \<Rightarrow> exn + raw_exchange_rate_data list) \<Rightarrow> timestamp \<Rightarrow>
   string \<Rightarrow> source_config \<Rightarrow> exn + collection_result" where
  "collect_from_source lg known fetch now source_id source_config =
     (case
        (case (if source_id = ''bok'' \<or> source_id = ''exchangerate_api'' \<or> source_id = ''fixer''
               then fetch source_id else Inl ValueError) of
           Inl e \<Rightarrow> Inl e
         | Inr raw_data \<Rightarrow>
             (case validate_collected_data lg known now raw_data of
                Inl e \<Rightarrow> Inl e
              | Inr validated_data \<Rightarrow>
                  Inr \<lparr>cr_source = source_id, cr_success = True, cr_error_message = None,
                       cr_currency_count = length validated_data,
                       cr_raw_data = Some validated_data\<rparr>))
      of
        Inr r \<Rightarrow> Inr r
      | Inl e \<Rightarrow>
          (case log_kw lg of
             Inl e' \<Rightarrow> Inl e'
           | Inr _ \<Rightarrow>
               Inr \<lparr>cr_source = source_id, cr_success = False, cr_error_message = Some e,
                    cr_currency_count = 0, cr_raw_data = None\<rparr>))"

text \<open>
  \<open>collect_all_data\<close>: one task per active source, awaited with
  \<open>asyncio.gather(..., return_exceptions=True)\<close>, so a task's exception arrives as its
  result; then the loop over \<open>enumerate(results)\<close>, which reads the source id at position
  \<open>i\<close> of all keys of \<open>api_sources\<close>. There are no more results than sources, so the
  position is always within range.
\<close>

definition collect_all_data ::
  "logger \<Rightarrow> string set \<Rightarrow> (string \<Rightarrow> exn + raw_exchange_rate_data list) \<Rightarrow> timestamp \<Rightarrow>
   (string \<times> source_config) list \<Rightarrow> collection_result list" where
  "collect_all_data lg known fetch now api_sources =
     (let collection_tasks = filter (\<lambda>(source_id, source_config). sc_active source_config) api_sources;
          results = map (\<lambda>(source_id, source_config).
                      collect_from_source lg known fetch now source_id source_config) collection_tasks
      in map (\<lambda>(i, result).
                let source_id = map fst api_sources ! i
                in (case result of
                      Inl e \<Rightarrow>
                        \<lparr>cr_source = source_id, cr_success = False, cr_error_message = Some e,
                         cr_currency_count = 0, cr_raw_data = None\<rparr>
                    | Inr r \<Rightarrow> r))
             (zip [0..<length results] results))"

subsection \<open>DataProcessor: cleaning\<close>

definition get_currency_name :: "string \<Rightarrow> string" where
  "get_currency_name code =
     (case map_of
        [(''USD'', [CHR 0xEB, CHR 0xAF, CHR 0xB8, CHR 0xEA, CHR 0xB5, CHR 0xAD, CHR 0x20, CHR 0xEB,
                    CHR 0x8B, CHR 0xAC, CHR 0xEB, CHR 0x9F, CHR 0xAC]),
         (''JPY'', [CHR 0xEC, CHR 0x9D, CHR 0xBC, CHR 0xEB, CHR 0xB3, CHR 0xB8, CHR 0x20, CHR 0xEC,
                    CHR 0x97, CHR 0x94]),
         (''EUR'', [CHR 0xEC, CHR 0x9C, CHR 0xA0, CHR 0xEB, CHR 0x9F, CHR 0xBD, CHR 0xEC, CHR 0x97,
                    CHR 0xB0, CHR 0xED, CHR 0x95, CHR 0xA9, CHR 0x20, CHR 0xEC, CHR 0x9C, CHR 0xA0,
                    CHR 0xEB, CHR 0xA1, CHR 0x9C]),
         (''GBP'', [CHR 0xEC, CHR 0x98, CHR 0x81, CHR 0xEA, CHR 0xB5, CHR 0xAD, CHR 0x20, CHR 0xED,
                    CHR 0x8C, CHR 0x8C, CHR 0xEC, CHR 0x9A, CHR 0xB4, CHR 0xEB, CHR 0x93, CHR 0x9C]),
         (''CNY'', [CHR 0xEC, CHR 0xA4, CHR 0x91, CHR 0xEA, CHR 0xB5, CHR 0xAD, CHR 0x20, CHR 0xEC,
                    CHR 0x9C, CHR 0x84, CHR 0xEC, CHR 0x95, CHR 0x88]),
         (''AUD'', [CHR 0xED, CHR 0x98, CHR 0xB8, CHR 0xEC, CHR 0xA3, CHR 0xBC, CHR 0x20, CHR 0xEB,
                    CHR 0x8B, CHR 0xAC, CHR 0xEB, CHR 0x9F, CHR 0xAC]),
         (''CAD'', [CHR 0xEC, CHR 0xBA, CHR 0x90, CHR 0xEB, CHR 0x82, CHR 0x98, CHR 0xEB, CHR 0x8B,
                    CHR 0xA4, CHR 0x20, CHR 0xEB, CHR 0x8B, CHR 0xAC, CHR 0xEB, CHR 0x9F, CHR 0xAC]),
         (''CHF'', [CHR 0xEC, CHR 0x8A, CHR 0xA4, CHR 0xEC, CHR 0x9C, CHR 0x84, CHR 0xEC, CHR 0x8A,
                    CHR 0xA4, CHR 0x20, CHR 0xED, CHR 0x94, CHR 0x84, CHR 0xEB, CHR 0x9E, CHR 0x91]),
         (''HKD'', [CHR 0xED, CHR 0x99, CHR 0x8D, CHR 0xEC, CHR 0xBD, CHR 0xA9, CHR 0x20, CHR 0xEB,
                    CHR 0x8B, CHR 0xAC, CHR 0xEB, CHR 0x9F, CHR 0xAC]),
         (''SGD'', [CHR 0xEC, CHR 0x8B, CHR 0xB1, CHR 0xEA, CHR 0xB0, CHR 0x80, CHR 0xED, CHR 0x8F,
                    CHR 0xAC, CHR 0xEB, CHR 0xA5, CHR 0xB4, CHR 0x20, CHR 0xEB, CHR 0x8B, CHR 0xAC,
                    CHR 0xEB, CHR 0x9F, CHR 0xAC])]
        code of
        None \<Rightarrow> code
      | Some name \<Rightarrow> name)"

text \<open>
  Modelled from the spec: the class \<open>ExchangeRate\<close> (shared/models.py) is not in the source
  tree. Section 3 gives a CanonicalRate a \<open>recorded_at\<close> timestamp, so building one without a
  timestamp is rejected; every other field is stored as given.
\<close>

definition ExchangeRate ::
  "string \<Rightarrow> string \<Rightarrow> rat \<Rightarrow> rat \<Rightarrow> rat \<Rightarrow> string \<Rightarrow> timestamp option \<Rightarrow> exn + exchange_rate" where
  "ExchangeRate code name base_rate tts_v ttb_v src rec_at =
     (case rec_at of
        None \<Rightarrow> Inl ValidationError
      | Some t \<Rightarrow>
          Inr \<lparr>currency_code = code, currency_name = name, deal_base_rate = base_rate,
               tts = tts_v, ttb = ttb_v, source = src, recorded_at = t\<rparr>)"

text \<open>
  One iteration of the loop of \<open>_clean_and_transform_data\<close>. \<open>DataUtils.safe_decimal\<close>
  (shared/utils.py) is not in the source tree: \<open>safe_decimal\<close> is a parameter, the result of
  \<open>DataUtils.safe_decimal(rate, 4)\<close> or the exception it raises. The processor's logger is the
  structured one, whose calls return.
\<close>

definition clean_item ::
  "(rat \<Rightarrow> exn + rat) \<Rightarrow> string \<Rightarrow> exchange_rate list \<Rightarrow> raw_exchange_rate_data \<Rightarrow>
   exchange_rate list" where
  "clean_item safe_decimal src processed_data raw_item =
     (case
        (case safe_decimal (raw_rate raw_item) of
           Inl e \<Rightarrow> Inl e
         | Inr base_rate \<Rightarrow>
             (let tts_v = base_rate * (102 / 100);
                  ttb_v = base_rate * (98 / 100);
                  name = get_currency_name (raw_currency_code raw_item)
              in (case ExchangeRate (raw_currency_code raw_item) name base_rate tts_v ttb_v src
                         (raw_timestamp raw_item) of
                    Inl e \<Rightarrow> Inl e
                  | Inr exchange_rate \<Rightarrow> Inr (processed_data @ [exchange_rate]))))
      of
        Inl e \<Rightarrow> processed_data
      | Inr p \<Rightarrow> p)"

definition clean_and_transform_data ::
  "(rat \<Rightarrow> exn + rat) \<Rightarrow> raw_exchange_rate_data list \<Rightarrow> string \<Rightarrow> exchange_rate list" where
  "clean_and_transform_data safe_decimal raw_data src =
     foldl (clean_item safe_decimal src) [] raw_data"

subsection \<open>The historical store, the cache and the messaging sink\<close>

text \<open>
  A value held in a Redis hash field or in a dictionary of the provider, kept in decoded
  form: \<open>PNum r\<close> is the decimal text of the number \<open>r\<close> (what \<open>str\<close> of a rate writes and
  \<open>float\<close> reads back), \<open>PTime t\<close> the ISO text of a timestamp, \<open>PStr s\<close> any other text,
  \<open>PNone\<close> Python's \<open>None\<close>.
\<close>

datatype pyval = PNone | PStr string | PNum rat | PTime timestamp

definition py_float :: "pyval \<Rightarrow> exn + rat" where
  "py_float v =
     (case v of
        PNum r \<Rightarrow> Inr r
      | PStr s \<Rightarrow> Inl ValueError
      | PTime t \<Rightarrow> Inl ValueError
      | PNone \<Rightarrow> Inl TypeError)"

type_synonym hash = "(string \<times> pyval) list"

record cache_entry =
  e_fields :: hash
  e_ttl :: int
  e_set_at :: timestamp

text \<open>A row of the table \<open>exchange_rate_history\<close>, with the columns of the INSERT statement.\<close>

record history_row =
  h_currency_code :: string
  h_currency_name :: string
  h_deal_base_rate :: rat
  h_tts :: "rat option"
  h_ttb :: "rat option"
  h_source :: string
  h_recorded_at :: timestamp
  h_created_at :: timestamp

text \<open>The \<open>event_data\<close> dictionary of \<open>_send_update_events\<close>.\<close>

record update_event =
  ev_currency_code :: string
  ev_currency_name :: string
  ev_deal_base_rate :: rat
  ev_tts :: "rat option"
  ev_ttb :: "rat option"
  ev_source :: string
  ev_recorded_at :: timestamp
  ev_updated_at :: timestamp

record world =
  history :: "history_row list"
  redis :: "string \<Rightarrow> cache_entry option"
  published :: "update_event list"

text \<open>
  The calls that leave the process. Which of them fail is decided by the environment: a
  predicate on calls, true where the call raises. Redis calls are named by their key, the
  latest-rate query by its currency, and the calls of the processor's loops by the position
  of the record in \<open>processed_data\<close>.
\<close>

datatype call =
    RedisGet string | RedisSet string | LatestQuery string
  | DupQuery nat | Insert nat | Publish nat

text \<open>
  Modelled from the spec: \<open>RedisHelper.get_hash\<close> (shared/database.py) is not in the source
  tree. Section 6 describes the cache as a key-value store with a TTL per key, holding a hash
  per currency key: \<open>get_hash\<close> returns the hash while the TTL has not run out and an empty
  dictionary otherwise.
\<close>

definition get_hash :: "(call \<Rightarrow> bool) \<Rightarrow> timestamp \<Rightarrow> world \<Rightarrow> string \<Rightarrow> exn + hash" where
  "get_hash faults now w key =
     (if faults (RedisGet key) then Inl CacheError
      else Inr (case redis w key of
                  None \<Rightarrow> []
                | Some e \<Rightarrow> if now < e_set_at e + e_ttl e then e_fields e else []))"

text \<open>
  Modelled from the spec: \<open>RedisHelper.set_hash\<close> (shared/database.py) is not in the source
  tree. By sections 3 and 6 it stores the hash under the key and restarts the TTL of the key.
\<close>

definition set_hash ::
  "(call \<Rightarrow> bool) \<Rightarrow> timestamp \<Rightarrow> world \<Rightarrow> string \<Rightarrow> hash \<Rightarrow> int \<Rightarrow> exn + world" where
  "set_hash faults now w key mapping ttl =
     (if faults (RedisSet key) then Inl CacheError
      else Inr (w\<lparr>redis := (redis w)(key \<mapsto> \<lparr>e_fields = mapping, e_ttl = ttl, e_set_at = now\<rparr>)\<rparr>))"

text \<open>
  Modelled from the spec: \<open>MySQLHelper\<close> (shared/database.py) is not in the source tree.
  Section 6 gives the historical store three operations; each is modelled as the SQL statement
  of its caller, evaluated on the rows of the table. \<open>newest\<close> is
  \<open>ORDER BY recorded_at DESC LIMIT 1\<close>: a row with the greatest \<open>recorded_at\<close>.
\<close>

fun newest :: "history_row list \<Rightarrow> history_row option" where
  "newest [] = None"
| "newest (r # rs) =
     (case newest rs of
        None \<Rightarrow> Some r
      | Some r' \<Rightarrow> if h_recorded_at r < h_recorded_at r' then Some r' else Some r)"

text \<open>
  Modelled from the spec: \<open>MySQLHelper.execute_query\<close> on the query of \<open>_get_rate_from_db\<close>,
  the operation "most recent by currency" of section 6.
\<close>

definition execute_query_latest ::
  "(call \<Rightarrow> bool) \<Rightarrow> world \<Rightarrow> string \<Rightarrow> exn + history_row list" where
  "execute_query_latest faults w code =
     (if faults (LatestQuery code) then Inl DatabaseError
      else Inr (case newest (filter (\<lambda>r. h_currency_code r = code) (history w)) of
                  None \<Rightarrow> []
                | Some r \<Rightarrow> [r]))"

text \<open>
  Modelled from the spec: \<open>MySQLHelper.execute_query\<close> on the query of \<open>_filter_duplicates\<close>,
  the operation "recent by currency and source within window" of section 6:
  \<open>SELECT COUNT(*) ... WHERE currency_code = %s AND source = %s AND recorded_at > %s AND
  ABS(deal_base_rate - %s) < 0.01\<close>, one result row holding the count.
\<close>

definition execute_query_count ::
  "(call \<Rightarrow> bool) \<Rightarrow> world \<Rightarrow> nat \<Rightarrow> string \<Rightarrow> string \<Rightarrow> timestamp \<Rightarrow> rat \<Rightarrow> exn + nat list" where
  "execute_query_count faults w i code src since r =
     (if faults (DupQuery i) then Inl DatabaseError
      else Inr [length (filter (\<lambda>row. h_currency_code row = code \<and> h_source row = src \<and>
                                      since < h_recorded_at row \<and>
                                      \<bar>h_deal_base_rate row - r\<bar> < 1 / 100) (history w))])"

text \<open>
  Modelled from the spec: \<open>MySQLHelper.execute_insert\<close>, the operation "insert" of section 6;
  the row is appended to the table.
\<close>

definition execute_insert :: "(call \<Rightarrow> bool) \<Rightarrow> world \<Rightarrow> nat \<Rightarrow> history_row \<Rightarrow> exn + world" where
  "execute_insert faults w i row =
     (if faults (Insert i) then Inl DatabaseError
      else Inr (w\<lparr>history := history w @ [row]\<rparr>))"

text \<open>
  \<open>send_exchange_rate_update\<close> (shared/messaging.py) returns \<open>True\<close> once Kafka or SQS has
  taken the message and raises \<open>MessagingError\<close> otherwise.
\<close>

definition send_exchange_rate_update ::
  "(call \<Rightarrow> bool) \<Rightarrow> world \<Rightarrow> nat \<Rightarrow> update_event \<Rightarrow> exn + bool \<times> world" where
  "send_exchange_rate_update faults w i ev =
     (if faults (Publish i) then Inl MessagingError
      else Inr (True, w\<lparr>published := published w @ [ev]\<rparr>))"

subsection \<open>DataProcessor: deduplication, persistence, cache, events\<close>

definition batch_size :: nat where
  "batch_size = 100"

text \<open>The loop of \<open>_filter_duplicates\<close>; \<open>i\<close> is the position of \<open>item\<close> in \<open>processed_data\<close>.\<close>

fun filter_loop ::
  "(call \<Rightarrow> bool) \<Rightarrow> timestamp \<Rightarrow> world \<Rightarrow> nat \<Rightarrow> exchange_rate list \<Rightarrow> exchange_rate list \<Rightarrow>
   exn + exchange_rate list" where
  "filter_loop faults one_hour_ago w i filtered_data [] = Inr filtered_data"
| "filter_loop faults one_hour_ago w i filtered_data (item # rest) =
     (case execute_query_count faults w i (currency_code item) (source item) one_hour_ago
             (deal_base_rate item) of
        Inl e \<Rightarrow> Inl e
      | Inr result \<Rightarrow>
          filter_loop faults one_hour_ago w (Suc i)
            (if (case result of [] \<Rightarrow> False | c # _ \<Rightarrow> c = 0)
             then filtered_data @ [item] else filtered_data)
            rest)"

definition filter_duplicates ::
  "(call \<Rightarrow> bool) \<Rightarrow> timestamp \<Rightarrow> world \<Rightarrow> exchange_rate list \<Rightarrow> exchange_rate list" where
  "filter_duplicates faults now w processed_data =
     (if processed_data = [] then []
      else (case filter_loop faults (now - 3600) w 0 [] processed_data of
              Inl e \<Rightarrow> processed_data
            | Inr filtered_data \<Rightarrow> filtered_data))"

text \<open>The parameters of the INSERT: \<open>float(item.tts) if item.tts else None\<close>, and so on.\<close>

definition insert_row :: "exchange_rate \<Rightarrow> timestamp \<Rightarrow> history_row" where
  "insert_row item now =
     \<lparr>h_currency_code = currency_code item, h_currency_name = currency_name item,
      h_deal_base_rate = deal_base_rate item,
      h_tts = (if tts item \<noteq> 0 then Some (tts item) else None),
      h_ttb = (if ttb item \<noteq> 0 then Some (ttb item) else None),
      h_source = source item, h_recorded_at = recorded_at item, h_created_at = now\<rparr>"

text \<open>
  The inner loop of \<open>_save_to_database\<close> over one batch; \<open>i\<close> is the position in
  \<open>processed_data\<close> of the first record of what is left of the batch.
\<close>

fun save_batch ::
  "(call \<Rightarrow> bool) \<Rightarrow> timestamp \<Rightarrow> nat \<Rightarrow> exchange_rate list \<Rightarrow> nat \<times> world \<Rightarrow> nat \<times> world" where
  "save_batch faults now i [] st = st"
| "save_batch faults now i (item # batch) (saved_count, w) =
     save_batch faults now (Suc i) batch
       (case execute_insert faults w i (insert_row item now) of
          Inl e \<Rightarrow> (saved_count, w)
        | Inr w' \<Rightarrow> (saved_count + 1, w'))"

text \<open>\<open>range(0, n, step)\<close> for a positive step.\<close>

definition py_range :: "nat \<Rightarrow> nat \<Rightarrow> nat list" where
  "py_range n step = map (\<lambda>k. k * step) [0..<(n + step - 1) div step]"

definition save_to_database ::
  "(call \<Rightarrow> bool) \<Rightarrow> timestamp \<Rightarrow> world \<Rightarrow> exchange_rate list \<Rightarrow> (exn + nat) \<times> world" where
  "save_to_database faults now w processed_data =
     (if processed_data = [] then (Inr 0, w)
      else (case fold (\<lambda>i st. save_batch faults now i
                                 (take batch_size (drop i processed_data)) st)
                      (py_range (length processed_data) batch_size) (0, w) of
              (saved_count, w') \<Rightarrow> (Inr saved_count, w')))"

definition cache_data :: "exchange_rate \<Rightarrow> hash" where
  "cache_data item =
     [(''currency_name'', PStr (currency_name item)),
      (''deal_base_rate'', PNum (deal_base_rate item)),
      (''tts'', if tts item \<noteq> 0 then PNum (tts item) else PStr []),
      (''ttb'', if ttb item \<noteq> 0 then PNum (ttb item) else PStr []),
      (''source'', PStr (source item)),
      (''last_updated_at'', PTime (recorded_at item))]"

definition update_cache ::
  "(call \<Rightarrow> bool) \<Rightarrow> timestamp \<Rightarrow> world \<Rightarrow> exchange_rate list \<Rightarrow> world" where
  "update_cache faults now w processed_data =
     foldl (\<lambda>w item.
              (case set_hash faults now w (''rate:'' @ currency_code item) (cache_data item) 3600 of
                 Inl e \<Rightarrow> w
               | Inr w' \<Rightarrow> w'))
           w processed_data"

definition event_data :: "exchange_rate \<Rightarrow> timestamp \<Rightarrow> update_event" where
  "event_data item now =
     \<lparr>ev_currency_code = currency_code item, ev_currency_name = currency_name item,
      ev_deal_base_rate = deal_base_rate item,
      ev_tts = (if tts item \<noteq> 0 then Some (tts item) else None),
      ev_ttb = (if ttb item \<noteq> 0 then Some (ttb item) else None),
      ev_source = source item, ev_recorded_at = recorded_at item, ev_updated_at = now\<rparr>"

definition send_update_events ::
  "(call \<Rightarrow> bool) \<Rightarrow> timestamp \<Rightarrow> world \<Rightarrow> exchange_rate list \<Rightarrow> world" where
  "send_update_events faults now w processed_data =
     foldl (\<lambda>w (i, item).
              (case send_exchange_rate_update faults w i (event_data item now) of
                 Inl e \<Rightarrow> w
               | Inr (success, w') \<Rightarrow> w'))
           w (zip [0..<length processed_data] processed_data)"

text \<open>
  \<open>process_exchange_rate_data\<close>, with \<open>duplicate_check_enabled = True\<close> as the constructor
  sets it. An exception of the pipeline is re-raised as \<open>DataProcessingError\<close>. The decorator
  \<open>PerformanceUtils.measure_time\<close> (shared/utils.py, not in the source tree) is taken to call
  the method and return what it returns.
\<close>

definition process_exchange_rate_data ::
  "(rat \<Rightarrow> exn + rat) \<Rightarrow> (call \<Rightarrow> bool) \<Rightarrow> timestamp \<Rightarrow> world \<Rightarrow> collection_result \<Rightarrow>
   (exn + unit) \<times> world" where
  "process_exchange_rate_data safe_decimal faults now w collection_result =
     (if \<not> cr_success collection_result \<or>
         (case cr_raw_data collection_result of None \<Rightarrow> True | Some raw \<Rightarrow> raw = [])
      then (Inr (), w)
      else
        (let processed_data =
               clean_and_transform_data safe_decimal
                 (case cr_raw_data collection_result of None \<Rightarrow> [] | Some raw \<Rightarrow> raw)
                 (cr_source collection_result)
         in if processed_data = [] then (Inr (), w)
            else
              (let processed_data = filter_duplicates faults now w processed_data
               in (case save_to_database faults now w processed_data of
                     (Inl e, w1) \<Rightarrow> (Inl DataProcessingError, w1)
                   | (Inr saved_count, w1) \<Rightarrow>
                       (let w2 = update_cache faults now w1 processed_data;
                            w3 = send_update_events faults now w2 processed_data
                        in (Inr (), w3))))))"

subsection \<open>CurrencyProvider\<close>

definition cache_ttl :: int where
  "cache_ttl = 600"

text \<open>
  The dictionary returned by \<open>_get_cached_rate\<close> and by \<open>_get_rate_from_db\<close>: both build it
  with the same seven keys.
\<close>

record rate_data =
  rd_currency_code :: string
  rd_currency_name :: pyval
  rd_deal_base_rate :: pyval
  rd_tts :: pyval
  rd_ttb :: pyval
  rd_source :: pyval
  rd_last_updated_at :: pyval

text \<open>\<open>d.get(k, default)\<close> on a hash.\<close>

definition dict_get :: "hash \<Rightarrow> string \<Rightarrow> pyval \<Rightarrow> pyval" where
  "dict_get d k dflt = (case map_of d k of None \<Rightarrow> dflt | Some v \<Rightarrow> v)"

text \<open>
  \<open>_get_cached_rate\<close>. Its handler logs with a keyword field, so with a plain logger the
  handler itself raises and the exception leaves the method.
\<close>

definition get_cached_rate ::
  "logger \<Rightarrow> (call \<Rightarrow> bool) \<Rightarrow> timestamp \<Rightarrow> world \<Rightarrow> string \<Rightarrow> exn + rate_data option" where
  "get_cached_rate lg faults now w code =
     (case
        (case get_hash faults now w (''rate:'' @ code) of
           Inl e \<Rightarrow> Inl e
         | Inr cached_data \<Rightarrow>
             if cached_data \<noteq> [] then
               (case map_of cached_data ''deal_base_rate'' of
                  None \<Rightarrow> Inr None
                | Some v \<Rightarrow>
                    Inr (Some \<lparr>rd_currency_code = code,
                               rd_currency_name = dict_get cached_data ''currency_name'' (PStr []),
                               rd_deal_base_rate = v,
                               rd_tts = dict_get cached_data ''tts'' PNone,
                               rd_ttb = dict_get cached_data ''ttb'' PNone,
                               rd_source = dict_get cached_data ''source'' (PStr ''cache''),
                               rd_last_updated_at = dict_get cached_data ''last_updated_at'' PNone\<rparr>))
             else Inr None)
      of
        Inl e \<Rightarrow> (case log_kw lg of Inl e' \<Rightarrow> Inl e' | Inr _ \<Rightarrow> Inr None)
      | Inr r \<Rightarrow> Inr r)"

text \<open>
  \<open>_get_rate_from_db\<close>: its handler logs without keyword fields and raises what
  \<open>handle_database_exception\<close> builds.
\<close>

definition get_rate_from_db ::
  "(call \<Rightarrow> bool) \<Rightarrow> world \<Rightarrow> string \<Rightarrow> exn + rate_data option" where
  "get_rate_from_db faults w code =
     (case execute_query_latest faults w code of
        Inl e \<Rightarrow> Inl DatabaseError
      | Inr result \<Rightarrow>
          (case result of
             [] \<Rightarrow> Inr None
           | row # _ \<Rightarrow>
               Inr (Some \<lparr>rd_currency_code = h_currency_code row,
                          rd_currency_name = PStr (h_currency_name row),
                          rd_deal_base_rate = PNum (h_deal_base_rate row),
                          rd_tts = (case h_tts row of
                                      None \<Rightarrow> PNone
                                    | Some t \<Rightarrow> if t \<noteq> 0 then PNum t else PNone),
                          rd_ttb = (case h_ttb row of
                                      None \<Rightarrow> PNone
                                    | Some t \<Rightarrow> if t \<noteq> 0 then PNum t else PNone),
                          rd_source = PStr (h_source row),
                          rd_last_updated_at = PTime (h_recorded_at row)\<rparr>)))"

text \<open>\<open>_cache_rate\<close>: the hash is written with \<open>self.cache_ttl\<close>.\<close>

definition cache_rate ::
  "logger \<Rightarrow> (call \<Rightarrow> bool) \<Rightarrow> timestamp \<Rightarrow> world \<Rightarrow> string \<Rightarrow> rate_data \<Rightarrow> (exn + unit) \<times> world" where
  "cache_rate lg faults now w code rd =
     (case set_hash faults now w (''rate:'' @ code)
             [(''currency_name'', rd_currency_name rd),
              (''deal_base_rate'', rd_deal_base_rate rd),
              (''tts'', rd_tts rd),
              (''ttb'', rd_ttb rd),
              (''source'', rd_source rd),
              (''last_updated_at'', rd_last_updated_at rd)]
             cache_ttl of
        Inl e \<Rightarrow> (case log_kw lg of Inl e' \<Rightarrow> (Inl e', w) | Inr _ \<Rightarrow> (Inr (), w))
      | Inr w' \<Rightarrow> (Inr (), w'))"

text \<open>
  The body of the \<open>try\<close> inside the loop of \<open>get_latest_rates\<close>, for one currency: the
  exception that ends it, if any, with \<open>rates\<close>, \<open>cache_hits\<close> and the world as the body
  leaves them.
\<close>

definition lookup_body ::
  "logger \<Rightarrow> (call \<Rightarrow> bool) \<Rightarrow> timestamp \<Rightarrow> (string \<Rightarrow> rat option) \<times> nat \<times> world \<Rightarrow> string \<Rightarrow>
   (exn + unit) \<times> (string \<Rightarrow> rat option) \<times> nat \<times> world" where
  "lookup_body lg faults now st code =
     (case st of (rates, cache_hits, w) \<Rightarrow>
        (case get_cached_rate lg faults now w code of
           Inl e \<Rightarrow> (Inl e, rates, cache_hits, w)
         | Inr cached \<Rightarrow>
             (case cached of
                Some cached_rate \<Rightarrow>
                  (case py_float (rd_deal_base_rate cached_rate) of
                     Inl e \<Rightarrow> (Inl e, rates, cache_hits, w)
                   | Inr v \<Rightarrow> (Inr (), rates(code \<mapsto> v), cache_hits + 1, w))
              | None \<Rightarrow>
                  (case get_rate_from_db faults w code of
                     Inl e \<Rightarrow> (Inl e, rates, cache_hits, w)
                   | Inr found \<Rightarrow>
                       (case found of
                          None \<Rightarrow> (Inr (), rates, cache_hits, w)
                        | Some db_rate \<Rightarrow>
                            (case py_float (rd_deal_base_rate db_rate) of
                               Inl e \<Rightarrow> (Inl e, rates, cache_hits, w)
                             | Inr v \<Rightarrow>
                                 (case cache_rate lg faults now w code db_rate of
                                    (r, w') \<Rightarrow> (r, rates(code \<mapsto> v), cache_hits, w'))))))))"

text \<open>
  One iteration of the loop: the \<open>except Exception\<close> handler logs without keyword fields
  and goes on to the next currency.
\<close>

definition lookup_currency ::
  "logger \<Rightarrow> (call \<Rightarrow> bool) \<Rightarrow> timestamp \<Rightarrow> (string \<Rightarrow> rat option) \<times> nat \<times> world \<Rightarrow> string \<Rightarrow>
   (string \<Rightarrow> rat option) \<times> nat \<times> world" where
  "lookup_currency lg faults now st code = snd (lookup_body lg faults now st code)"

text \<open>The dictionary returned by \<open>get_latest_rates\<close>.\<close>

record rates_snapshot =
  snap_base :: string
  snap_timestamp :: timestamp
  snap_rates :: "string \<Rightarrow> rat option"
  snap_source :: string
  snap_cache_hit :: bool
  snap_cache_hit_ratio :: rat

definition get_latest_rates ::
  "logger \<Rightarrow> (call \<Rightarrow> bool) \<Rightarrow> timestamp \<Rightarrow> world \<Rightarrow> string list \<Rightarrow> string \<Rightarrow>
   (exn + rates_snapshot) \<times> world" where
  "get_latest_rates lg faults now w currency_codes base_currency =
     (let currency_codes =
            (if currency_codes = [] then [''USD'', ''JPY'', ''EUR'', ''GBP'', ''CNY'']
             else currency_codes)
      in (case foldl (lookup_currency lg faults now) (Map.empty, 0, w) currency_codes of
            (rates, cache_hits, w') \<Rightarrow>
              (Inr \<lparr>snap_base = base_currency, snap_timestamp = now, snap_rates = rates,
                    snap_source = (if cache_hits > 0 then ''redis_cache'' else ''database''),
                    snap_cache_hit = (cache_hits > 0),
                    snap_cache_hit_ratio =
                      (if currency_codes \<noteq> [] then of_nat cache_hits / of_nat (length currency_codes)
                       else 0)\<rparr>,
               w')))"

section \<open>Properties\<close>

subsection \<open>Cleaning\<close>

lemma clean_item_cases:
  "clean_item sd src acc r = acc \<or>
   (\<exists>b t. sd (raw_rate r) = Inr b \<and> raw_timestamp r = Some t \<and>
      clean_item sd src acc r =
        acc @ [\<lparr>currency_code = raw_currency_code r,
                currency_name = get_currency_name (raw_currency_code r),
                deal_base_rate = b, tts = b * (102 / 100), ttb = b * (98 / 100),
                source = src, recorded_at = t\<rparr>])"
  by (auto simp: clean_item_def ExchangeRate_def Let_def split: sum.splits option.splits)

lemma foldl_clean_item_spread:
  assumes "\<forall>x\<in>set acc. tts x = deal_base_rate x * (102 / 100) \<and> ttb x = deal_base_rate x * (98 / 100)"
  shows "\<forall>x\<in>set (foldl (clean_item sd src) acc raws).
           tts x = deal_base_rate x * (102 / 100) \<and> ttb x = deal_base_rate x * (98 / 100)"
  using assms
proof (induction raws arbitrary: acc)
  case Nil
  then show ?case by simp
next
  case (Cons r raws)
  have "\<forall>x\<in>set (clean_item sd src acc r).
          tts x = deal_base_rate x * (102 / 100) \<and> ttb x = deal_base_rate x * (98 / 100)"
    using clean_item_cases [of sd src acc r] Cons.prems by auto
  from Cons.IH [OF this] show ?case by simp
qed

text \<open>
  Claim C7. Every record that \<open>_clean_and_transform_data\<close> returns has \<open>tts\<close> (the sell rate)
  equal to its base rate times 1.02 and \<open>ttb\<close> (the buy rate) equal to its base rate times
  0.98; so the buy rate is below and the sell rate above the base rate whenever the base rate
  is positive.
\<close>

theorem clean_spread_invariant:
  "\<forall>x\<in>set (clean_and_transform_data safe_decimal raw_data src).
     tts x = deal_base_rate x * (102 / 100) \<and>
     ttb x = deal_base_rate x * (98 / 100) \<and>
     (0 < deal_base_rate x \<longrightarrow> ttb x < deal_base_rate x \<and> deal_base_rate x < tts x)"
proof
  fix x
  assume "x \<in> set (clean_and_transform_data safe_decimal raw_data src)"
  then have eq: "tts x = deal_base_rate x * (102 / 100) \<and> ttb x = deal_base_rate x * (98 / 100)"
    using foldl_clean_item_spread [of "[]" safe_decimal src raw_data]
    by (simp add: clean_and_transform_data_def)
  moreover have "0 < deal_base_rate x \<longrightarrow>
      deal_base_rate x * (98 / 100) < deal_base_rate x \<and> deal_base_rate x < deal_base_rate x * (102 / 100)"
    by simp
  ultimately show "tts x = deal_base_rate x * (102 / 100) \<and>
     ttb x = deal_base_rate x * (98 / 100) \<and>
     (0 < deal_base_rate x \<longrightarrow> ttb x < deal_base_rate x \<and> deal_base_rate x < tts x)"
    by simp
qed

theorem clean_spread_invariant_witness:
  "(let x = \<lparr>currency_code = ''USD'', currency_name = get_currency_name ''USD'',
             deal_base_rate = 1350, tts = 1377, ttb = 1323, source = ''bok'', recorded_at = 5\<rparr>
    in x \<in> set (clean_and_transform_data Inr
                   [\<lparr>raw_currency_code = ''USD'', raw_rate = 1350, raw_source = ''bok'',
                     raw_timestamp = Some 5\<rparr>] ''bok'') \<and>
       0 < deal_base_rate x \<and> ttb x < deal_base_rate x \<and> deal_base_rate x < tts x)"
  using clean_spread_invariant [of Inr
          "[\<lparr>raw_currency_code = ''USD'', raw_rate = 1350, raw_source = ''bok'',
             raw_timestamp = Some 5\<rparr>]" "''bok''"]
  by (simp add: clean_and_transform_data_def clean_item_def ExchangeRate_def Let_def)

subsection \<open>Validation\<close>

lemma validate_item_structured:
  "validate_item Structured known now acc r =
     Inr (if raw_currency_code r \<in> known \<and> 0 < raw_rate r \<and> raw_rate r \<le> 10000
          then acc @ [r\<lparr>raw_timestamp := Some (case raw_timestamp r of None \<Rightarrow> now | Some t \<Rightarrow> t)\<rparr>]
          else acc)"
  by (auto simp: validate_item_def validate_currency_code_def log_kw_def)

lemma validate_loop_structured:
  "validate_loop Structured known now acc raws =
     Inr (acc @ map (\<lambda>r. r\<lparr>raw_timestamp := Some (case raw_timestamp r of None \<Rightarrow> now | Some t \<Rightarrow> t)\<rparr>)
                  (filter (\<lambda>r. raw_currency_code r \<in> known \<and> 0 < raw_rate r \<and> raw_rate r \<le> 10000) raws))"
  by (induction raws arbitrary: acc) (simp_all add: validate_item_structured)




subsection \<open>Deduplication\<close>




text \<open>When one of the queries raises, the method returns every candidate.\<close>

lemma filter_loop_fault:
  assumes "j < length cands" "faults (DupQuery (i + j))"
  shows "\<exists>e. filter_loop faults since w i acc cands = Inl e"
  using assms
proof (induction cands arbitrary: i j acc)
  case Nil
  then show ?case by simp
next
  case (Cons c cs)
  show ?case
  proof (cases j)
    case 0
    with Cons.prems show ?thesis by (simp add: execute_query_count_def)
  next
    case (Suc k)
    with Cons.prems have "k < length cs" "faults (DupQuery (Suc i + k))" by simp_all
    from Cons.IH [OF this] show ?thesis
      by (auto simp: execute_query_count_def)
  qed
qed

lemma filter_duplicates_degrades:
  assumes "j < length candidates" "faults (DupQuery j)"
  shows "filter_duplicates faults now w candidates = candidates"
  using filter_loop_fault [of j candidates faults 0 "now - 3600" w "[]"] assms
  by (auto simp: filter_duplicates_def)

subsection \<open>Persistence\<close>

lemma save_batch_eq:
  "save_batch faults now i batch (c, w) =
     (c + length (filter (\<lambda>(j, x). \<not> faults (Insert j)) (zip [i..<i + length batch] batch)),
      w\<lparr>history := history w @
           map (\<lambda>(j, x). insert_row x now)
             (filter (\<lambda>(j, x). \<not> faults (Insert j)) (zip [i..<i + length batch] batch))\<rparr>)"
proof (induction batch arbitrary: i c w)
  case Nil
  then show ?case by simp
next
  case (Cons x xs)
  have upt: "[i..<i + length (x # xs)] = i # [Suc i..<Suc i + length xs]"
    by (subst upt_rec) simp
  show ?case
    unfolding upt by (simp add: Cons.IH execute_insert_def)
qed

lemma save_batch_append:
  "save_batch faults now i (xs @ ys) st =
     save_batch faults now (i + length xs) ys (save_batch faults now i xs st)"
proof (induction xs arbitrary: i st)
  case Nil
  then show ?case by simp
next
  case (Cons x xs)
  obtain c w where st: "st = (c, w)" by (cases st)
  show ?case unfolding st by (simp add: Cons.IH)
qed

lemma fold_batches:
  assumes "0 < b"
  shows "fold (\<lambda>i st. save_batch faults now i (take b (drop i xs)) st) (map (\<lambda>k. k * b) [0..<m]) st =
         save_batch faults now 0 (take (m * b) xs) st"
proof (induction m)
  case 0
  then show ?case by simp
next
  case (Suc m)
  have split: "take (Suc m * b) xs = take (m * b) xs @ take b (drop (m * b) xs)"
  proof -
    have "Suc m * b = m * b + b" by simp
    then show ?thesis by (simp only: take_add)
  qed
  show ?case
  proof (cases "m * b \<le> length xs")
    case True
    then have len: "length (take (m * b) xs) = m * b" by simp
    show ?thesis
      unfolding split by (simp add: Suc.IH save_batch_append len del: length_take)
  next
    case False
    then have "drop (m * b) xs = []" by simp
    then show ?thesis
      unfolding split by (simp add: Suc.IH)
  qed
qed

lemma py_range_cover: "0 < (b::nat) \<Longrightarrow> n \<le> (n + b - 1) div b * b"
proof -
  assume b: "0 < (b::nat)"
  have "n + b - 1 = (n + b - 1) div b * b + (n + b - 1) mod b" by simp
  moreover have "(n + b - 1) mod b < b" using b by simp
  ultimately show ?thesis by linarith
qed

text \<open>
  Claim C8. \<open>_save_to_database\<close> goes through the records in batches of 100, never raises, and
  returns the number of records whose INSERT did not fail; the store gains exactly the rows of
  those records, in order. A failing INSERT is skipped and the records after it are still
  written.
\<close>

theorem save_to_database_counts:
  "save_to_database faults now w processed_data =
     (Inr (length (filter (\<lambda>(j, x). \<not> faults (Insert j))
                     (zip [0..<length processed_data] processed_data))),
      w\<lparr>history := history w @
           map (\<lambda>(j, x). insert_row x now)
             (filter (\<lambda>(j, x). \<not> faults (Insert j))
                (zip [0..<length processed_data] processed_data))\<rparr>)"
proof (cases "processed_data = []")
  case True
  then show ?thesis by (simp add: save_to_database_def)
next
  case False
  have cover: "take ((length processed_data + batch_size - 1) div batch_size * batch_size) processed_data
                 = processed_data"
    using py_range_cover [of batch_size "length processed_data"] by (simp add: batch_size_def)
  have "fold (\<lambda>i st. save_batch faults now i (take batch_size (drop i processed_data)) st)
          (py_range (length processed_data) batch_size) (0, w) =
        save_batch faults now 0 processed_data (0, w)"
    unfolding py_range_def
    by (subst fold_batches) (simp_all add: cover batch_size_def)
  then show ?thesis
    using False by (simp add: save_to_database_def save_batch_eq)
qed

text \<open>A hundred records, the INSERT of the fiftieth failing: the method returns 99.\<close>

theorem save_to_database_counts_witness:
  "fst (save_to_database (\<lambda>c. c = Insert 49) 0
          \<lparr>history = [], redis = Map.empty, published = []\<rparr>
          (replicate 100 \<lparr>currency_code = ''USD'', currency_name = ''US Dollar'',
              deal_base_rate = 1350, tts = 1377, ttb = 1323, source = ''bok'', recorded_at = 0\<rparr>))
   = Inr 99"
  using save_to_database_counts [of "\<lambda>c. c = Insert 49" 0
          "\<lparr>history = [], redis = Map.empty, published = []\<rparr>"
          "replicate 100 \<lparr>currency_code = ''USD'', currency_name = ''US Dollar'',
              deal_base_rate = 1350, tts = 1377, ttb = 1323, source = ''bok'', recorded_at = 0\<rparr>"]
  by (simp add: upt_rec_numeral eval_nat_numeral)

subsection \<open>Cache refresh by the processor\<close>

lemma update_cache_snoc:
  "update_cache faults now w (xs @ [x]) =
     (case set_hash faults now (update_cache faults now w xs) (''rate:'' @ currency_code x)
             (cache_data x) 3600 of
        Inl e \<Rightarrow> update_cache faults now w xs
      | Inr w' \<Rightarrow> w')"
  unfolding update_cache_def by (simp only: foldl_append foldl_Cons foldl_Nil)

text \<open>
  Claim C6, as the code has it. For every record of \<open>processed_data\<close> whose cache write does
  not fail, \<open>_update_cache\<close> leaves under the key of its currency an entry written now with a
  TTL of 3600 seconds (not the 600 seconds of \<open>cache_ttl\<close>).
\<close>

theorem update_cache_ttl:
  assumes "item \<in> set processed_data"
    and "\<not> faults (RedisSet (''rate:'' @ currency_code item))"
  shows "\<exists>e. redis (update_cache faults now w processed_data) (''rate:'' @ currency_code item) = Some e \<and>
             e_ttl e = 3600 \<and> e_set_at e = now"
  using assms
proof (induction processed_data rule: rev_induct)
  case Nil
  then show ?case by simp
next
  case (snoc x xs)
  show ?case
  proof (cases "currency_code x = currency_code item")
    case True
    with snoc.prems(2) show ?thesis
      by (simp add: update_cache_snoc set_hash_def)
  next
    case False
    with snoc.prems have "item \<in> set xs" by auto
    from snoc.IH [OF this snoc.prems(2)] False show ?thesis
      by (auto simp: update_cache_snoc set_hash_def)
  qed
qed

theorem update_cache_ttl_witness:
  "\<exists>e. redis (update_cache (\<lambda>c. False) 50 \<lparr>history = [], redis = Map.empty, published = []\<rparr>
               [\<lparr>currency_code = ''USD'', currency_name = ''US Dollar'', deal_base_rate = 1350,
                 tts = 1377, ttb = 1323, source = ''bok'', recorded_at = 0\<rparr>])
        ''rate:USD'' = Some e \<and> e_ttl e = 3600 \<and> e_set_at e = 50"
  using update_cache_ttl [of
     "\<lparr>currency_code = ''USD'', currency_name = ''US Dollar'', deal_base_rate = 1350,
       tts = 1377, ttb = 1323, source = ''bok'', recorded_at = 0\<rparr>"
     "[\<lparr>currency_code = ''USD'', currency_name = ''US Dollar'', deal_base_rate = 1350,
       tts = 1377, ttb = 1323, source = ''bok'', recorded_at = 0\<rparr>]"
     "\<lambda>c. False" 50 "\<lparr>history = [], redis = Map.empty, published = []\<rparr>"]
  by simp

text \<open>The TTL of an entry written by \<open>_update_cache\<close> is not 600.\<close>

theorem update_cache_ttl_counterexample:
  "map_option e_ttl
     (redis (update_cache (\<lambda>c. False) 0 \<lparr>history = [], redis = Map.empty, published = []\<rparr>
               [\<lparr>currency_code = ''USD'', currency_name = ''US Dollar'', deal_base_rate = 1350,
                 tts = 1377, ttb = 1323, source = ''bok'', recorded_at = 0\<rparr>])
        ''rate:USD'') \<noteq> Some 600"
  by (simp add: update_cache_def set_hash_def)

subsection \<open>Nothing to process\<close>

text \<open>
  Claim C10. For a collection result that did not succeed, or that has no raw records,
  \<open>process_exchange_rate_data\<close> returns at once: the historical store, the cache and the
  messaging sink are unchanged.
\<close>

theorem process_skips_failed_or_empty:
  assumes "\<not> cr_success cr \<or> cr_raw_data cr = None \<or> cr_raw_data cr = Some []"
  shows "process_exchange_rate_data safe_decimal faults now w cr = (Inr (), w)"
  using assms by (auto simp: process_exchange_rate_data_def split: option.splits)

theorem process_skips_failed_or_empty_witness:
  "process_exchange_rate_data Inr (\<lambda>c. False) 10
     \<lparr>history = [], redis = Map.empty, published = []\<rparr>
     \<lparr>cr_source = ''fixer'', cr_success = False, cr_error_message = Some ExternalAPIError,
      cr_currency_count = 0, cr_raw_data = None\<rparr> =
   (Inr (), \<lparr>history = [], redis = Map.empty, published = []\<rparr>)"
  using process_skips_failed_or_empty [of
     "\<lparr>cr_source = ''fixer'', cr_success = False, cr_error_message = Some ExternalAPIError,
       cr_currency_count = 0, cr_raw_data = None\<rparr>" Inr "\<lambda>c. False" 10
     "\<lparr>history = [], redis = Map.empty, published = []\<rparr>"]
  by simp

subsection \<open>The read path: one currency\<close>

lemma get_cached_rate_local:
  "redis w1 (''rate:'' @ c) = redis w2 (''rate:'' @ c) \<Longrightarrow>
   get_cached_rate lg faults now w1 c = get_cached_rate lg faults now w2 c"
  by (simp add: get_cached_rate_def get_hash_def)

lemma get_rate_from_db_local:
  "history w1 = history w2 \<Longrightarrow> get_rate_from_db faults w1 c = get_rate_from_db faults w2 c"
  by (simp add: get_rate_from_db_def execute_query_latest_def)

lemma cache_rate_world:
  "snd (cache_rate lg faults now w c rd) =
     (if faults (RedisSet (''rate:'' @ c)) then w
      else w\<lparr>redis := (redis w)(''rate:'' @ c \<mapsto>
              \<lparr>e_fields = [(''currency_name'', rd_currency_name rd),
                           (''deal_base_rate'', rd_deal_base_rate rd),
                           (''tts'', rd_tts rd), (''ttb'', rd_ttb rd),
                           (''source'', rd_source rd),
                           (''last_updated_at'', rd_last_updated_at rd)],
               e_ttl = cache_ttl, e_set_at = now\<rparr>)\<rparr>)"
proof (cases "faults (RedisSet (''rate:'' @ c))")
  case True
  then show ?thesis
    by (cases lg) (simp_all add: cache_rate_def set_hash_def log_kw_def)
next
  case False
  then show ?thesis by (simp add: cache_rate_def set_hash_def)
qed

lemma lookup_currency_unfold:
  "lookup_currency lg faults now (rates, hits, w) c =
    (case get_cached_rate lg faults now w c of
       Inl e \<Rightarrow> (rates, hits, w)
     | Inr cached \<Rightarrow>
        (case cached of
           Some cr \<Rightarrow>
             (case py_float (rd_deal_base_rate cr) of
                Inl e \<Rightarrow> (rates, hits, w)
              | Inr v \<Rightarrow> (rates(c \<mapsto> v), hits + 1, w))
         | None \<Rightarrow>
             (case get_rate_from_db faults w c of
                Inl e \<Rightarrow> (rates, hits, w)
              | Inr found \<Rightarrow>
                  (case found of
                     None \<Rightarrow> (rates, hits, w)
                   | Some dr \<Rightarrow>
                       (case py_float (rd_deal_base_rate dr) of
                          Inl e \<Rightarrow> (rates, hits, w)
                        | Inr v \<Rightarrow> (rates(c \<mapsto> v), hits, snd (cache_rate lg faults now w c dr)))))))"
  unfolding lookup_currency_def lookup_body_def
  by (auto simp: case_prod_beta split: sum.split option.split)

lemma lookup_cases:
  obtains
    (cache_error) e where "get_cached_rate lg faults now w c = Inl e"
  | (hit_bad) cr e where "get_cached_rate lg faults now w c = Inr (Some cr)"
      "py_float (rd_deal_base_rate cr) = Inl e"
  | (hit) cr v where "get_cached_rate lg faults now w c = Inr (Some cr)"
      "py_float (rd_deal_base_rate cr) = Inr v"
  | (db_error) e where "get_cached_rate lg faults now w c = Inr None"
      "get_rate_from_db faults w c = Inl e"
  | (no_data) "get_cached_rate lg faults now w c = Inr None"
      "get_rate_from_db faults w c = Inr None"
  | (db_bad) dr e where "get_cached_rate lg faults now w c = Inr None"
      "get_rate_from_db faults w c = Inr (Some dr)" "py_float (rd_deal_base_rate dr) = Inl e"
  | (db_found) dr v where "get_cached_rate lg faults now w c = Inr None"
      "get_rate_from_db faults w c = Inr (Some dr)" "py_float (rd_deal_base_rate dr) = Inr v"
proof (cases "get_cached_rate lg faults now w c")
  case (Inl e)
  then show ?thesis by (rule cache_error)
next
  case G: (Inr cached)
  show ?thesis
  proof (cases cached)
    case (Some cr)
    show ?thesis
    proof (cases "py_float (rd_deal_base_rate cr)")
      case (Inl e)
      with G Some show ?thesis by (intro hit_bad) simp_all
    next
      case (Inr v)
      with G Some show ?thesis by (intro hit) simp_all
    qed
  next
    case None
    show ?thesis
    proof (cases "get_rate_from_db faults w c")
      case (Inl e)
      with G None show ?thesis by (intro db_error) simp_all
    next
      case D: (Inr found)
      show ?thesis
      proof (cases found)
        case N: None
        with G None D show ?thesis by (intro no_data) simp_all
      next
        case S: (Some dr)
        show ?thesis
        proof (cases "py_float (rd_deal_base_rate dr)")
          case (Inl e)
          with G None D S show ?thesis by (intro db_bad) simp_all
        next
          case (Inr v)
          with G None D S show ?thesis by (intro db_found) simp_all
        qed
      qed
    qed
  qed
qed

lemma lookup_currency_shape:
  "lookup_currency lg faults now (rates, hits, w) c =
     (case lookup_currency lg faults now (Map.empty, 0, w) c of
        (r0, h0, w0) \<Rightarrow>
          ((case r0 c of None \<Rightarrow> rates | Some v \<Rightarrow> rates(c \<mapsto> v)), hits + h0, w0))"
  by (cases rule: lookup_cases [of lg faults now w c]) (simp_all add: lookup_currency_unfold)

lemma lookup_currency_frame:
  assumes "lookup_currency lg faults now (rates, hits, w) c = (rates', hits', w')"
  shows "history w' = history w \<and> published w' = published w \<and>
         (\<forall>k. k \<noteq> ''rate:'' @ c \<longrightarrow> redis w' k = redis w k)"
  using assms
  by (cases rule: lookup_cases [of lg faults now w c])
     (auto simp: lookup_currency_unfold cache_rate_world)

lemma lookup_currency_local:
  assumes h: "history w1 = history w2" and r: "redis w1 (''rate:'' @ c) = redis w2 (''rate:'' @ c)"
    and l1: "lookup_currency lg faults now (rates, hits, w1) c = (r1, h1, w1')"
    and l2: "lookup_currency lg faults now (rates, hits, w2) c = (r2, h2, w2')"
  shows "r1 = r2 \<and> h1 = h2 \<and> redis w1' (''rate:'' @ c) = redis w2' (''rate:'' @ c)"
proof -
  note G = get_cached_rate_local [OF r, of lg faults now]
  note D = get_rate_from_db_local [OF h, of faults c]
  show ?thesis
    using l1 l2 r
    by (cases rule: lookup_cases [of lg faults now w2 c])
       (auto simp: lookup_currency_unfold G D cache_rate_world)
qed

subsection \<open>The read path: a request for several currencies\<close>

text \<open>
  For a request without repeated currencies, the loop of \<open>get_latest_rates\<close> resolves each
  currency as a lookup of that currency alone in the world the request started from.
\<close>

lemma foldl_lookup:
  assumes "distinct codes"
  shows "\<exists>rates' hits' w'.
     foldl (lookup_currency lg faults now) (rates, hits, w) codes = (rates', hits', w') \<and>
     (\<forall>c. rates' c =
        (if c \<in> set codes
         then (case fst (lookup_currency lg faults now (Map.empty, 0, w) c) c of
                 None \<Rightarrow> rates c | Some v \<Rightarrow> Some v)
         else rates c)) \<and>
     hits' = hits + sum_list (map (\<lambda>c. fst (snd (lookup_currency lg faults now (Map.empty, 0, w) c))) codes) \<and>
     history w' = history w \<and> published w' = published w \<and>
     (\<forall>c. redis w' (''rate:'' @ c) =
        (if c \<in> set codes
         then redis (snd (snd (lookup_currency lg faults now (Map.empty, 0, w) c))) (''rate:'' @ c)
         else redis w (''rate:'' @ c)))"
  using assms
proof (induction codes arbitrary: rates hits w)
  case Nil
  then show ?case by simp
next
  case (Cons c cs)
  let ?L = "\<lambda>w c. lookup_currency lg faults now (Map.empty, 0, w) c"
  obtain r0 h0 w0 where L: "?L w c = (r0, h0, w0)" by (cases "?L w c")
  let ?R1 = "case r0 c of None \<Rightarrow> rates | Some v \<Rightarrow> rates(c \<mapsto> v)"
  have step: "lookup_currency lg faults now (rates, hits, w) c = (?R1, hits + h0, w0)"
    by (subst lookup_currency_shape) (simp add: L)
  have frame: "history w0 = history w" "published w0 = published w"
    "\<And>k. k \<noteq> ''rate:'' @ c \<Longrightarrow> redis w0 k = redis w k"
    using lookup_currency_frame [OF L] by simp_all
  have dist: "distinct cs" and notin: "c \<notin> set cs" using Cons.prems by simp_all
  from Cons.IH [OF dist, of ?R1 "hits + h0" w0]
  obtain rates' hits' w' where
    fold: "foldl (lookup_currency lg faults now) (?R1, hits + h0, w0) cs = (rates', hits', w')"
    and rt: "\<And>x. rates' x =
        (if x \<in> set cs then (case fst (?L w0 x) x of None \<Rightarrow> ?R1 x | Some v \<Rightarrow> Some v)
         else ?R1 x)"
    and ht: "hits' = hits + h0 + sum_list (map (\<lambda>x. fst (snd (?L w0 x))) cs)"
    and hi: "history w' = history w0" and pu: "published w' = published w0"
    and rd: "\<And>x. redis w' (''rate:'' @ x) =
        (if x \<in> set cs then redis (snd (snd (?L w0 x))) (''rate:'' @ x)
         else redis w0 (''rate:'' @ x))"
    by blast
  have loc: "fst (?L w0 x) = fst (?L w x) \<and> fst (snd (?L w0 x)) = fst (snd (?L w x)) \<and>
             redis (snd (snd (?L w0 x))) (''rate:'' @ x) = redis (snd (snd (?L w x))) (''rate:'' @ x)"
    if "x \<in> set cs" for x
  proof -
    from that notin have "x \<noteq> c" by auto
    then have "redis w0 (''rate:'' @ x) = redis w (''rate:'' @ x)"
      by (intro frame(3)) simp
    from lookup_currency_local [OF frame(1) this, of lg faults now Map.empty 0
           "fst (?L w0 x)" "fst (snd (?L w0 x))" "snd (snd (?L w0 x))"
           "fst (?L w x)" "fst (snd (?L w x))" "snd (snd (?L w x))"]
    show ?thesis by simp
  qed
  have sum: "sum_list (map (\<lambda>x. fst (snd (?L w0 x))) cs) = sum_list (map (\<lambda>x. fst (snd (?L w x))) cs)"
    by (rule arg_cong [where f = sum_list], rule map_cong) (simp_all add: loc)
  have c1: "foldl (lookup_currency lg faults now) (rates, hits, w) (c # cs) = (rates', hits', w')"
    by (simp add: step fold)
  have c2: "rates' x =
        (if x \<in> set (c # cs) then (case fst (?L w x) x of None \<Rightarrow> rates x | Some v \<Rightarrow> Some v)
         else rates x)" for x
  proof (cases "x \<in> set cs")
    case True
    with notin have "x \<noteq> c" by auto
    then have "?R1 x = rates x" by (simp split: option.split)
    with True loc [OF True] show ?thesis by (simp add: rt split: option.split)
  next
    case False
    show ?thesis
    proof (cases "x = c")
      case True
      with False show ?thesis by (simp add: rt L split: option.split)
    next
      case ne: False
      with False show ?thesis by (simp add: rt split: option.split)
    qed
  qed
  have c3: "hits' = hits + sum_list (map (\<lambda>x. fst (snd (?L w x))) (c # cs))"
    by (simp add: ht sum L)
  have c5: "redis w' (''rate:'' @ x) =
        (if x \<in> set (c # cs) then redis (snd (snd (?L w x))) (''rate:'' @ x)
         else redis w (''rate:'' @ x))" for x
  proof (cases "x \<in> set cs")
    case True
    with loc [OF True] rd [of x] show ?thesis by simp
  next
    case False
    show ?thesis
    proof (cases "x = c")
      case True
      with False rd [of x] show ?thesis by (simp add: L)
    next
      case ne: False
      then have "redis w0 (''rate:'' @ x) = redis w (''rate:'' @ x)"
        by (intro frame(3)) simp
      with ne False rd [of x] show ?thesis by simp
    qed
  qed
  have final: "foldl (lookup_currency lg faults now) (rates, hits, w) (c # cs) = (rates', hits', w') \<and>
     (\<forall>x. rates' x =
        (if x \<in> set (c # cs)
         then (case fst (?L w x) x of None \<Rightarrow> rates x | Some v \<Rightarrow> Some v)
         else rates x)) \<and>
     hits' = hits + sum_list (map (\<lambda>x. fst (snd (?L w x))) (c # cs)) \<and>
     history w' = history w \<and> published w' = published w \<and>
     (\<forall>x. redis w' (''rate:'' @ x) =
        (if x \<in> set (c # cs) then redis (snd (snd (?L w x))) (''rate:'' @ x)
         else redis w (''rate:'' @ x)))"
  proof (intro conjI allI)
    show "foldl (lookup_currency lg faults now) (rates, hits, w) (c # cs) = (rates', hits', w')"
      by (rule c1)
    show "hits' = hits + sum_list (map (\<lambda>x. fst (snd (?L w x))) (c # cs))" by (rule c3)
    show "history w' = history w" using hi frame(1) by simp
    show "published w' = published w" using pu frame(2) by simp
  qed (rule c2, rule c5)
  show ?case by (rule exI, rule exI, rule exI, rule final)
qed

lemma get_latest_rates_fold:
  assumes "codes \<noteq> []"
    and "foldl (lookup_currency lg faults now) (Map.empty, 0, w) codes = (rates', hits', w')"
  shows "get_latest_rates lg faults now w codes base =
     (Inr \<lparr>snap_base = base, snap_timestamp = now, snap_rates = rates',
           snap_source = (if hits' > 0 then ''redis_cache'' else ''database''),
           snap_cache_hit = (hits' > 0),
           snap_cache_hit_ratio = of_nat hits' / of_nat (length codes)\<rparr>, w')"
  using assms by (simp add: get_latest_rates_def)

lemma get_latest_rates_single:
  "\<exists>s1 w1. get_latest_rates lg faults now w [c] base = (Inr s1, w1) \<and>
     snap_rates s1 = fst (lookup_currency lg faults now (Map.empty, 0, w) c) \<and>
     snap_cache_hit s1 = (0 < fst (snd (lookup_currency lg faults now (Map.empty, 0, w) c)))"
proof -
  obtain r h w1 where L: "lookup_currency lg faults now (Map.empty, 0, w) c = (r, h, w1)"
    by (cases "lookup_currency lg faults now (Map.empty, 0, w) c")
  have "foldl (lookup_currency lg faults now) (Map.empty, 0, w) [c] = (r, h, w1)"
    by (simp add: L)
  from get_latest_rates_fold [OF _ this, of base] show ?thesis
    by (simp add: L)
qed

lemma lookup_rates_upd:
  "fst (lookup_currency lg faults now (Map.empty, 0, w) c) c' =
     (if c' = c then fst (lookup_currency lg faults now (Map.empty, 0, w) c) c else None)"
  by (cases rule: lookup_cases [of lg faults now w c]) (simp_all add: lookup_currency_unfold)

lemma lookup_omitted:
  assumes "(\<exists>e. get_cached_rate lg faults now w c = Inl e) \<or>
           (get_cached_rate lg faults now w c = Inr None \<and>
            (get_rate_from_db faults w c = Inr None \<or> (\<exists>e. get_rate_from_db faults w c = Inl e)))"
  shows "fst (lookup_currency lg faults now (Map.empty, 0, w) c) c = None"
  using assms by (auto simp: lookup_currency_unfold)

lemma get_cached_rate_plain_fault:
  "faults (RedisGet (''rate:'' @ c)) \<Longrightarrow> get_cached_rate Plain faults now w c = Inl TypeError"
  by (simp add: get_cached_rate_def get_hash_def log_kw_def)

lemma get_rate_from_db_fault:
  "faults (LatestQuery c) \<Longrightarrow> get_rate_from_db faults w c = Inl DatabaseError"
  by (simp add: get_rate_from_db_def execute_query_latest_def)

lemma get_rate_from_db_no_rows:
  assumes "\<not> faults (LatestQuery c)" "\<not> (\<exists>r\<in>set (history w). h_currency_code r = c)"
  shows "get_rate_from_db faults w c = Inr None"
proof -
  have "filter (\<lambda>r. h_currency_code r = c) (history w) = []"
    using assms(2) by (simp add: filter_empty_conv)
  then show ?thesis
    using assms(1) by (simp add: get_rate_from_db_def execute_query_latest_def)
qed

lemma get_latest_rates_distinct:
  assumes "distinct codes" "codes \<noteq> []"
  shows "\<exists>snap w'.
     get_latest_rates lg faults now w codes base = (Inr snap, w') \<and>
     (\<forall>c. c \<notin> set codes \<longrightarrow> snap_rates snap c = None) \<and>
     (\<forall>c\<in>set codes. \<exists>s1 w1.
         get_latest_rates lg faults now w [c] base = (Inr s1, w1) \<and>
         snap_rates snap c = snap_rates s1 c) \<and>
     (\<forall>c\<in>set codes.
         (lg = Plain \<and> faults (RedisGet (''rate:'' @ c))) \<or>
         (get_cached_rate lg faults now w c = Inr None \<and>
          (faults (LatestQuery c) \<or> \<not> (\<exists>r\<in>set (history w). h_currency_code r = c)))
         \<longrightarrow> snap_rates snap c = None)"
proof -
  let ?L = "\<lambda>c. lookup_currency lg faults now (Map.empty, 0, w) c"
  from foldl_lookup [OF assms(1), of lg faults now Map.empty 0 w]
  obtain rates' hits' w' where
    fold: "foldl (lookup_currency lg faults now) (Map.empty, 0, w) codes = (rates', hits', w')"
    and rt: "\<And>c. rates' c =
        (if c \<in> set codes then (case fst (?L c) c of None \<Rightarrow> None | Some v \<Rightarrow> Some v) else None)"
    by blast
  let ?snap = "\<lparr>snap_base = base, snap_timestamp = now, snap_rates = rates',
           snap_source = (if hits' > 0 then ''redis_cache'' else ''database''),
           snap_cache_hit = (hits' > 0),
           snap_cache_hit_ratio = of_nat hits' / of_nat (length codes)\<rparr>"
  have val: "rates' c = fst (?L c) c" if "c \<in> set codes" for c
    using that by (simp add: rt split: option.split)
  have a: "get_latest_rates lg faults now w codes base = (Inr ?snap, w')"
    by (rule get_latest_rates_fold [OF assms(2) fold])
  have b: "\<forall>c. c \<notin> set codes \<longrightarrow> snap_rates ?snap c = None"
    by (simp add: rt)
  have c: "\<forall>c\<in>set codes. \<exists>s1 w1.
         get_latest_rates lg faults now w [c] base = (Inr s1, w1) \<and>
         snap_rates ?snap c = snap_rates s1 c"
  proof
    fix c assume "c \<in> set codes"
    with get_latest_rates_single [of lg faults now w c base] val [of c]
    show "\<exists>s1 w1. get_latest_rates lg faults now w [c] base = (Inr s1, w1) \<and>
         snap_rates ?snap c = snap_rates s1 c"
      by auto
  qed
  have d: "\<forall>c\<in>set codes.
         (lg = Plain \<and> faults (RedisGet (''rate:'' @ c))) \<or>
         (get_cached_rate lg faults now w c = Inr None \<and>
          (faults (LatestQuery c) \<or> \<not> (\<exists>r\<in>set (history w). h_currency_code r = c)))
         \<longrightarrow> snap_rates ?snap c = None"
  proof (intro ballI impI)
    fix c assume cin: "c \<in> set codes"
    assume h: "(lg = Plain \<and> faults (RedisGet (''rate:'' @ c))) \<or>
         (get_cached_rate lg faults now w c = Inr None \<and>
          (faults (LatestQuery c) \<or> \<not> (\<exists>r\<in>set (history w). h_currency_code r = c)))"
    have "(\<exists>e. get_cached_rate lg faults now w c = Inl e) \<or>
           (get_cached_rate lg faults now w c = Inr None \<and>
            (get_rate_from_db faults w c = Inr None \<or> (\<exists>e. get_rate_from_db faults w c = Inl e)))"
      using h get_cached_rate_plain_fault [of faults c now w]
        get_rate_from_db_fault [of faults c w] get_rate_from_db_no_rows [of faults c w]
      by blast
    from lookup_omitted [OF this] val [OF cin] show "snap_rates ?snap c = None" by simp
  qed
  from a b c d show ?thesis by blast
qed


text \<open>
  Claim C1. A request for distinct currencies never fails as a whole; \<open>req\<close> is the list the
  method goes through, the five default currencies when none is requested. Every currency of
  \<open>req\<close> is resolved exactly as if it had been requested alone, so a failure for one currency
  changes nothing for the others; a currency outside \<open>req\<close> is absent. A currency of \<open>req\<close> is
  absent from the rates when its cache lookup raises (the plain logger of the provider makes
  the handler of \<open>_get_cached_rate\<close> raise), when the cache misses and the database query
  raises, and when the cache misses and the store has no row for it.
\<close>

theorem get_latest_rates_partial:
  assumes "distinct codes"
    and "req = (if codes = [] then [''USD'', ''JPY'', ''EUR'', ''GBP'', ''CNY''] else codes)"
  shows "\<exists>snap w'.
     get_latest_rates lg faults now w codes base = (Inr snap, w') \<and>
     (\<forall>c. c \<notin> set req \<longrightarrow> snap_rates snap c = None) \<and>
     (\<forall>c\<in>set req. \<exists>s1 w1.
         get_latest_rates lg faults now w [c] base = (Inr s1, w1) \<and>
         snap_rates snap c = snap_rates s1 c) \<and>
     (\<forall>c\<in>set req.
         (lg = Plain \<and> faults (RedisGet (''rate:'' @ c))) \<or>
         (get_cached_rate lg faults now w c = Inr None \<and>
          (faults (LatestQuery c) \<or> \<not> (\<exists>r\<in>set (history w). h_currency_code r = c)))
         \<longrightarrow> snap_rates snap c = None)"
proof -
  have d: "distinct req" and ne: "req \<noteq> []"
    using assms by (simp_all split: if_splits)
  have "get_latest_rates lg faults now w codes base = get_latest_rates lg faults now w req base"
    using assms(2) by (simp add: get_latest_rates_def)
  with get_latest_rates_distinct [OF d ne, of lg faults now w base] show ?thesis by simp
qed

text \<open>
  A store that holds only USD, an empty cache, a request for USD and JPY: the rates hold USD
  and nothing else.
\<close>

theorem get_latest_rates_partial_witness:
  "\<exists>snap w'.
     get_latest_rates Plain (\<lambda>c. False) 1000
       \<lparr>history = [\<lparr>h_currency_code = ''USD'', h_currency_name = ''US Dollar'',
                     h_deal_base_rate = 1350, h_tts = Some 1377, h_ttb = Some 1323,
                     h_source = ''bok'', h_recorded_at = 900, h_created_at = 900\<rparr>],
        redis = Map.empty, published = []\<rparr>
       [''USD'', ''JPY''] ''KRW'' = (Inr snap, w') \<and>
     snap_rates snap ''USD'' = Some 1350 \<and> snap_rates snap ''JPY'' = None \<and>
     snap_rates snap ''EUR'' = None"
  using get_latest_rates_partial [of "[''USD'', ''JPY'']" "[''USD'', ''JPY'']" Plain "\<lambda>c. False" 1000
       "\<lparr>history = [\<lparr>h_currency_code = ''USD'', h_currency_name = ''US Dollar'',
                     h_deal_base_rate = 1350, h_tts = Some 1377, h_ttb = Some 1323,
                     h_source = ''bok'', h_recorded_at = 900, h_created_at = 900\<rparr>],
        redis = Map.empty, published = []\<rparr>" "''KRW''"]
  by (simp add: get_latest_rates_def lookup_currency_def lookup_body_def get_cached_rate_def
        get_hash_def get_rate_from_db_def execute_query_latest_def py_float_def cache_rate_def
        set_hash_def cache_ttl_def)

subsection \<open>The read path: read-through fill\<close>

lemma newest_Some:
  "newest rs = Some r \<Longrightarrow> r \<in> set rs \<and> (\<forall>r'\<in>set rs. h_recorded_at r' \<le> h_recorded_at r)"
proof (induction rs arbitrary: r)
  case Nil
  then show ?case by simp
next
  case (Cons a rs)
  show ?case
  proof (cases "newest rs")
    case None
    then have "rs = []" by (cases rs) (auto split: option.splits if_splits)
    with Cons.prems None show ?thesis by simp
  next
    case (Some r')
    from Cons.IH [OF Some] Cons.prems Some show ?thesis
      by (auto split: if_splits)
  qed
qed

lemma newest_nonempty: "rs \<noteq> [] \<Longrightarrow> \<exists>r. newest rs = Some r"
  by (cases rs) (auto split: option.splits)

lemma get_rate_from_db_found:
  assumes "\<not> faults (LatestQuery c)"
    and "newest (filter (\<lambda>r. h_currency_code r = c) (history w)) = Some r"
  shows "\<exists>dr. get_rate_from_db faults w c = Inr (Some dr) \<and>
              rd_deal_base_rate dr = PNum (h_deal_base_rate r)"
  using assms by (simp add: get_rate_from_db_def execute_query_latest_def)

lemma lookup_hits:
  "fst (snd (lookup_currency lg faults now (Map.empty, 0, w) c)) =
     (if \<exists>cr v. get_cached_rate lg faults now w c = Inr (Some cr) \<and>
                 py_float (rd_deal_base_rate cr) = Inr v
      then 1 else 0)"
  by (cases rule: lookup_cases [of lg faults now w c]) (simp_all add: lookup_currency_unfold)

lemma sum_list_pos_iff: "(0 < sum_list (map f xs)) = (\<exists>x\<in>set xs. 0 < (f x :: nat))"
  by (induction xs) auto

lemma lookup_fill:
  assumes miss: "get_cached_rate lg faults now w c = Inr None"
    and db: "get_rate_from_db faults w c = Inr (Some dr)"
    and num: "rd_deal_base_rate dr = PNum v"
    and setok: "\<not> faults (RedisSet (''rate:'' @ c))"
  shows "fst (lookup_currency lg faults now (Map.empty, 0, w) c) c = Some v \<and>
         (\<exists>e. redis (snd (snd (lookup_currency lg faults now (Map.empty, 0, w) c))) (''rate:'' @ c) = Some e \<and>
              e_ttl e = 600 \<and> e_set_at e = now \<and>
              map_of (e_fields e) ''deal_base_rate'' = Some (PNum v))"
  using assms
  by (simp add: lookup_currency_unfold py_float_def cache_rate_world cache_ttl_def)

lemma lookup_hit_entry:
  assumes entry: "redis w (''rate:'' @ c) = Some e"
    and live: "now < e_set_at e + e_ttl e"
    and field: "map_of (e_fields e) ''deal_base_rate'' = Some (PNum v)"
    and getok: "\<not> faults (RedisGet (''rate:'' @ c))"
  shows "fst (lookup_currency lg faults now (Map.empty, 0, w) c) c = Some v \<and>
         fst (snd (lookup_currency lg faults now (Map.empty, 0, w) c)) = 1"
proof -
  have ne: "e_fields e \<noteq> []" using field by auto
  have "\<exists>cr. get_cached_rate lg faults now w c = Inr (Some cr) \<and> rd_deal_base_rate cr = PNum v"
    using entry live field getok ne by (simp add: get_cached_rate_def get_hash_def)
  then show ?thesis
    by (auto simp: lookup_currency_unfold py_float_def)
qed

text \<open>
  Claim C2. In a request for distinct currencies, take a currency whose cache lookup misses,
  for which the store holds a row, and whose database query and cache calls do not fail. The
  request returns for it the base rate of a row with the greatest \<open>recorded_at\<close> among its
  rows, and writes that rate into the cache under its key with a TTL of 600 seconds. The
  source tag of the request is \<open>redis_cache\<close> exactly if some requested currency was served
  from the cache, and \<open>database\<close> otherwise. A second request before the TTL has run out
  returns the same rate for the currency, with the source tag \<open>redis_cache\<close>.
\<close>

theorem read_through_fill:
  assumes dist: "distinct codes" and cin: "c \<in> set codes"
    and miss: "get_cached_rate lg faults now w c = Inr None"
    and rows: "\<exists>r\<in>set (history w). h_currency_code r = c"
    and qok: "\<not> faults (LatestQuery c)"
    and setok: "\<not> faults (RedisSet (''rate:'' @ c))"
    and getok: "\<not> faults (RedisGet (''rate:'' @ c))"
    and within: "now2 < now + 600"
  shows "\<exists>snap w' r.
     get_latest_rates lg faults now w codes base = (Inr snap, w') \<and>
     r \<in> set (history w) \<and> h_currency_code r = c \<and>
     (\<forall>r'\<in>set (history w). h_currency_code r' = c \<longrightarrow> h_recorded_at r' \<le> h_recorded_at r) \<and>
     snap_rates snap c = Some (h_deal_base_rate r) \<and>
     snap_source snap =
       (if \<exists>c'\<in>set codes. \<exists>cr v. get_cached_rate lg faults now w c' = Inr (Some cr) \<and>
                                   py_float (rd_deal_base_rate cr) = Inr v
        then ''redis_cache'' else ''database'') \<and>
     (\<exists>e. redis w' (''rate:'' @ c) = Some e \<and> e_ttl e = 600 \<and> e_set_at e = now \<and>
          map_of (e_fields e) ''deal_base_rate'' = Some (PNum (h_deal_base_rate r))) \<and>
     (\<exists>snap2 w2.
          get_latest_rates lg faults now2 w' codes base = (Inr snap2, w2) \<and>
          snap_rates snap2 c = Some (h_deal_base_rate r) \<and>
          snap_source snap2 = ''redis_cache'')"
proof -
  let ?L = "\<lambda>c. lookup_currency lg faults now (Map.empty, 0, w) c"
  have ne: "codes \<noteq> []" using cin by auto
  have "filter (\<lambda>r. h_currency_code r = c) (history w) \<noteq> []"
    using rows by (simp add: filter_empty_conv)
  from newest_nonempty [OF this]
  obtain r where nw: "newest (filter (\<lambda>r. h_currency_code r = c) (history w)) = Some r" ..
  from newest_Some [OF nw]
  have r1: "r \<in> set (history w)" and r2: "h_currency_code r = c"
    and r3: "\<forall>r'\<in>set (history w). h_currency_code r' = c \<longrightarrow> h_recorded_at r' \<le> h_recorded_at r"
    by auto
  let ?v = "h_deal_base_rate r"
  from get_rate_from_db_found [where faults = faults and c = c and w = w and r = r, OF qok nw]
  obtain dr where db: "get_rate_from_db faults w c = Inr (Some dr)"
    and num: "rd_deal_base_rate dr = PNum ?v" by blast
  from lookup_fill [OF miss db num setok]
  obtain e where f1: "fst (?L c) c = Some ?v"
    and f2: "redis (snd (snd (?L c))) (''rate:'' @ c) = Some e"
    and f3: "e_ttl e = 600" "e_set_at e = now"
      "map_of (e_fields e) ''deal_base_rate'' = Some (PNum ?v)"
    by blast
  from foldl_lookup [OF dist, of lg faults now Map.empty 0 w]
  obtain rates' hits' w' where
    fold: "foldl (lookup_currency lg faults now) (Map.empty, 0, w) codes = (rates', hits', w')"
    and rt: "\<And>x. rates' x =
        (if x \<in> set codes then (case fst (?L x) x of None \<Rightarrow> None | Some v \<Rightarrow> Some v) else None)"
    and ht: "hits' = 0 + sum_list (map (\<lambda>x. fst (snd (?L x))) codes)"
    and rd: "\<And>x. redis w' (''rate:'' @ x) =
        (if x \<in> set codes then redis (snd (snd (?L x))) (''rate:'' @ x)
         else redis w (''rate:'' @ x))"
    by blast
  let ?snap = "\<lparr>snap_base = base, snap_timestamp = now, snap_rates = rates',
           snap_source = (if hits' > 0 then ''redis_cache'' else ''database''),
           snap_cache_hit = (hits' > 0),
           snap_cache_hit_ratio = of_nat hits' / of_nat (length codes)\<rparr>"
  have a: "get_latest_rates lg faults now w codes base = (Inr ?snap, w')"
    by (rule get_latest_rates_fold [OF ne fold])
  have b: "snap_rates ?snap c = Some ?v"
    using cin f1 by (simp add: rt)
  have hits: "(0 < hits') = (\<exists>c'\<in>set codes. \<exists>cr v. get_cached_rate lg faults now w c' = Inr (Some cr) \<and>
                                   py_float (rd_deal_base_rate cr) = Inr v)"
    unfolding ht by (simp add: sum_list_pos_iff lookup_hits)
  have s: "snap_source ?snap =
       (if \<exists>c'\<in>set codes. \<exists>cr v. get_cached_rate lg faults now w c' = Inr (Some cr) \<and>
                                   py_float (rd_deal_base_rate cr) = Inr v
        then ''redis_cache'' else ''database'')"
    using hits by simp
  have entry: "redis w' (''rate:'' @ c) = Some e"
    using rd [of c] cin f2 by simp
  have d: "\<exists>e. redis w' (''rate:'' @ c) = Some e \<and> e_ttl e = 600 \<and> e_set_at e = now \<and>
          map_of (e_fields e) ''deal_base_rate'' = Some (PNum ?v)"
    using entry f3 by blast
  let ?L2 = "\<lambda>c. lookup_currency lg faults now2 (Map.empty, 0, w') c"
  have live: "now2 < e_set_at e + e_ttl e" using within f3 by simp
  from lookup_hit_entry [where w = w' and c = c and e = e and now = now2 and faults = faults
      and lg = lg and v = "h_deal_base_rate r", OF entry live f3(3) getok]
  have h1: "fst (?L2 c) c = Some ?v" and h2: "fst (snd (?L2 c)) = 1" by simp_all
  from foldl_lookup [OF dist, of lg faults now2 Map.empty 0 w']
  obtain rates2 hits2 w2 where
    fold2: "foldl (lookup_currency lg faults now2) (Map.empty, 0, w') codes = (rates2, hits2, w2)"
    and rt2: "\<And>x. rates2 x =
        (if x \<in> set codes then (case fst (?L2 x) x of None \<Rightarrow> None | Some v \<Rightarrow> Some v) else None)"
    and ht2: "hits2 = 0 + sum_list (map (\<lambda>x. fst (snd (?L2 x))) codes)"
    by blast
  let ?snap2 = "\<lparr>snap_base = base, snap_timestamp = now2, snap_rates = rates2,
           snap_source = (if hits2 > 0 then ''redis_cache'' else ''database''),
           snap_cache_hit = (hits2 > 0),
           snap_cache_hit_ratio = of_nat hits2 / of_nat (length codes)\<rparr>"
  have a2: "get_latest_rates lg faults now2 w' codes base = (Inr ?snap2, w2)"
    by (rule get_latest_rates_fold [OF ne fold2])
  have b2: "snap_rates ?snap2 c = Some ?v"
    using cin h1 by (simp add: rt2)
  have "0 < hits2"
    unfolding ht2 using cin h2 by (simp add: sum_list_pos_iff) (rule bexI [of _ c], simp_all)
  then have s2: "snap_source ?snap2 = ''redis_cache''" by simp
  have second: "\<exists>snap2 w2.
          get_latest_rates lg faults now2 w' codes base = (Inr snap2, w2) \<and>
          snap_rates snap2 c = Some ?v \<and> snap_source snap2 = ''redis_cache''"
    using a2 b2 s2 by blast
  have final: "get_latest_rates lg faults now w codes base = (Inr ?snap, w') \<and>
     r \<in> set (history w) \<and> h_currency_code r = c \<and>
     (\<forall>r'\<in>set (history w). h_currency_code r' = c \<longrightarrow> h_recorded_at r' \<le> h_recorded_at r) \<and>
     snap_rates ?snap c = Some (h_deal_base_rate r) \<and>
     snap_source ?snap =
       (if \<exists>c'\<in>set codes. \<exists>cr v. get_cached_rate lg faults now w c' = Inr (Some cr) \<and>
                                   py_float (rd_deal_base_rate cr) = Inr v
        then ''redis_cache'' else ''database'') \<and>
     (\<exists>e. redis w' (''rate:'' @ c) = Some e \<and> e_ttl e = 600 \<and> e_set_at e = now \<and>
          map_of (e_fields e) ''deal_base_rate'' = Some (PNum (h_deal_base_rate r))) \<and>
     (\<exists>snap2 w2.
          get_latest_rates lg faults now2 w' codes base = (Inr snap2, w2) \<and>
          snap_rates snap2 c = Some (h_deal_base_rate r) \<and>
          snap_source snap2 = ''redis_cache'')"
    using a r1 r2 r3 b s d second by (intro conjI)
  show ?thesis by (rule exI, rule exI, rule exI, rule final)
qed

text \<open>
  An empty cache and a store with a USD rate of 1350: the first request for USD reports
  \<open>database\<close>, the second, 300 seconds later, the same rate and \<open>redis_cache\<close>.
\<close>

theorem read_through_fill_witness:
  "\<exists>snap w' snap2 w2.
     get_latest_rates Plain (\<lambda>c. False) 1000
       \<lparr>history = [\<lparr>h_currency_code = ''USD'', h_currency_name = ''US Dollar'',
                     h_deal_base_rate = 1350, h_tts = Some 1377, h_ttb = Some 1323,
                     h_source = ''bok'', h_recorded_at = 900, h_created_at = 900\<rparr>],
        redis = Map.empty, published = []\<rparr>
       [''USD''] ''KRW'' = (Inr snap, w') \<and>
     snap_rates snap ''USD'' = Some 1350 \<and> snap_source snap = ''database'' \<and>
     get_latest_rates Plain (\<lambda>c. False) 1300 w' [''USD''] ''KRW'' = (Inr snap2, w2) \<and>
     snap_rates snap2 ''USD'' = Some 1350 \<and> snap_source snap2 = ''redis_cache''"
  using read_through_fill [of "[''USD'']" "''USD''" Plain "\<lambda>c. False" 1000
       "\<lparr>history = [\<lparr>h_currency_code = ''USD'', h_currency_name = ''US Dollar'',
                     h_deal_base_rate = 1350, h_tts = Some 1377, h_ttb = Some 1323,
                     h_source = ''bok'', h_recorded_at = 900, h_created_at = 900\<rparr>],
        redis = Map.empty, published = []\<rparr>" 1300 "''KRW''"]
  by (simp add: get_latest_rates_def lookup_currency_def lookup_body_def get_cached_rate_def
        get_hash_def get_rate_from_db_def execute_query_latest_def py_float_def cache_rate_def
        set_hash_def cache_ttl_def dict_get_def)

subsection \<open>Collection\<close>

text \<open>
  With the structured logger no exception leaves \<open>_collect_from_source\<close>, and
  \<open>collect_all_data\<close> returns one result for each active source, in order, each under the
  id of its own source.
\<close>

lemma collect_from_source_structured:
  "\<exists>r. collect_from_source Structured known fetch now source_id cfg = Inr r \<and>
       cr_source r = source_id"
proof (cases "if source_id = ''bok'' \<or> source_id = ''exchangerate_api'' \<or> source_id = ''fixer''
               then fetch source_id else Inl ValueError")
  case (Inl e)
  then show ?thesis
    unfolding collect_from_source_def by (simp add: log_kw_def)
next
  case (Inr raw)
  then show ?thesis
    unfolding collect_from_source_def
    by (simp add: validate_collected_data_def validate_loop_structured)
qed

lemma length_collect_all_data:
  "length (collect_all_data lg known fetch now api_sources) =
     length (filter (\<lambda>(source_id, cfg). sc_active cfg) api_sources)"
  by (simp add: collect_all_data_def Let_def)

lemma nth_collect_all_data:
  assumes "i < length (filter (\<lambda>(source_id, cfg). sc_active cfg) api_sources)"
  shows "collect_all_data lg known fetch now api_sources ! i =
     (case collect_from_source lg known fetch now
             (fst (filter (\<lambda>(source_id, cfg). sc_active cfg) api_sources ! i))
             (snd (filter (\<lambda>(source_id, cfg). sc_active cfg) api_sources ! i)) of
        Inl e \<Rightarrow>
          \<lparr>cr_source = map fst api_sources ! i, cr_success = False, cr_error_message = Some e,
           cr_currency_count = 0, cr_raw_data = None\<rparr>
      | Inr r \<Rightarrow> r)"
  using assms by (simp add: collect_all_data_def Let_def case_prod_beta)

lemma collect_all_data_structured:
  "map cr_source (collect_all_data Structured known fetch now api_sources) =
     map fst (filter (\<lambda>(source_id, cfg). sc_active cfg) api_sources)"
proof (rule nth_equalityI)
  show "length (map cr_source (collect_all_data Structured known fetch now api_sources)) =
        length (map fst (filter (\<lambda>(source_id, cfg). sc_active cfg) api_sources))"
    by (simp add: length_collect_all_data)
next
  fix i
  assume "i < length (map cr_source (collect_all_data Structured known fetch now api_sources))"
  then have i: "i < length (filter (\<lambda>(source_id, cfg). sc_active cfg) api_sources)"
    by (simp add: length_collect_all_data)
  let ?t = "filter (\<lambda>(source_id, cfg). sc_active cfg) api_sources ! i"
  from collect_from_source_structured [of known fetch now "fst ?t" "snd ?t"]
  obtain r where "collect_from_source Structured known fetch now (fst ?t) (snd ?t) = Inr r"
    and "cr_source r = fst ?t" by blast
  then have "cr_source (collect_all_data Structured known fetch now api_sources ! i) = fst ?t"
    by (simp add: nth_collect_all_data [OF i])
  then show "map cr_source (collect_all_data Structured known fetch now api_sources) ! i =
             map fst (filter (\<lambda>(source_id, cfg). sc_active cfg) api_sources) ! i"
    using i by (simp add: length_collect_all_data)
qed

lemma validate_valid_plain:
  "validate_collected_data Plain {''USD''} 0
     [\<lparr>raw_currency_code = ''USD'', raw_rate = 1350, raw_source = s, raw_timestamp = Some 0\<rparr>] =
   Inr [\<lparr>raw_currency_code = ''USD'', raw_rate = 1350, raw_source = s, raw_timestamp = Some 0\<rparr>]"
  by (simp add: validate_collected_data_def validate_item_def validate_currency_code_def)

lemma task_exchangerate_api_raises:
  "collect_from_source Plain {''USD''}
        (\<lambda>s. if s = ''exchangerate_api'' then Inl ExternalAPIError
             else Inr [\<lparr>raw_currency_code = ''USD'', raw_rate = 1350, raw_source = s,
                        raw_timestamp = Some 0\<rparr>])
        0 ''exchangerate_api'' cfg = Inl TypeError"
  by (simp add: collect_from_source_def log_kw_def)

lemma task_fixer_returns:
  "collect_from_source Plain {''USD''}
        (\<lambda>s. if s = ''exchangerate_api'' then Inl ExternalAPIError
             else Inr [\<lparr>raw_currency_code = ''USD'', raw_rate = 1350, raw_source = s,
                        raw_timestamp = Some 0\<rparr>])
        0 ''fixer'' cfg =
   Inr \<lparr>cr_source = ''fixer'', cr_success = True, cr_error_message = None,
        cr_currency_count = 1,
        cr_raw_data = Some [\<lparr>raw_currency_code = ''USD'', raw_rate = 1350, raw_source = ''fixer'',
                              raw_timestamp = Some 0\<rparr>]\<rparr>"
  by (simp add: collect_from_source_def validate_valid_plain)

text \<open>
  Claim C3 fails on the branch of \<open>collect_all_data\<close> that handles an exception delivered by
  \<open>asyncio.gather\<close>: the source id is read at position \<open>i\<close> of all sources, while \<open>i\<close> counts
  the active ones. Without a Bank of Korea key the active sources are \<open>exchangerate_api\<close> and
  \<open>fixer\<close>; when the task of \<open>exchangerate_api\<close> ends with an exception (here the plain
  fallback logger makes the handler of \<open>_collect_from_source\<close> raise), its failure is
  returned under the id \<open>bok\<close>.
\<close>

theorem collect_all_data_mislabels_source:
  "map cr_source
     (collect_all_data Plain {''USD''}
        (\<lambda>s. if s = ''exchangerate_api'' then Inl ExternalAPIError
             else Inr [\<lparr>raw_currency_code = ''USD'', raw_rate = 1350, raw_source = s,
                        raw_timestamp = Some 0\<rparr>])
        0 (initialize_api_sources [] [])) = [''bok'', ''fixer''] \<and>
   map fst (filter (\<lambda>(source_id, cfg). sc_active cfg) (initialize_api_sources [] [])) =
     [''exchangerate_api'', ''fixer'']"
  unfolding collect_all_data_def initialize_api_sources_def Let_def
  by (simp add: task_exchangerate_api_raises task_fixer_returns)

end
